theory Spec2Isabelle
  imports Main
begin

section \<open>The graph container of graph.h\<close>

text \<open>
  The class \<^verbatim>\<open>graph<VertexT, WeightT>\<close> holds two members: the adjacency list
  \<^verbatim>\<open>unordered_map<VertexT, vector<pair<VertexT, WeightT>>> adjList\<close> and the registry
  \<^verbatim>\<open>vector<VertexT> Vertices\<close>. The vectors are lists. The unordered map is an
  association list whose order stands for the (unspecified) iteration order of the
  hash table: \<^verbatim>\<open>at\<close> and \<^verbatim>\<open>operator[]\<close> find the entry of a key, and \<^verbatim>\<open>operator[]\<close>
  adds an entry with an empty vector for a key that has none.
  Equality of vertices (\<^verbatim>\<open>==\<close>, and the map's key equality) is HOL equality.
\<close>

record ('v, 'w) graph =
  adjList :: "('v \<times> ('v \<times> 'w) list) list"
  Vertices :: "'v list"

text \<open>The default constructor \<^verbatim>\<open>graph()\<close>; \<^verbatim>\<open>graph(int numVertices)\<close> ignores its argument.\<close>

definition empty_graph :: "('v, 'w) graph" where
  "empty_graph = \<lparr>adjList = [], Vertices = []\<rparr>"

definition graph_n :: "int \<Rightarrow> ('v, 'w) graph" where
  "graph_n numVertices = \<lparr>adjList = [], Vertices = []\<rparr>"

subsection \<open>Exceptions and the narrowing to \<^verbatim>\<open>int\<close>\<close>

text \<open>\<^verbatim>\<open>unordered_map::at\<close> throws \<^verbatim>\<open>std::out_of_range\<close> for a key without an entry.\<close>

datatype error = OutOfRange

text \<open>
  \<^verbatim>\<open>int\<close> is 32 bits wide. A conversion of a size to \<^verbatim>\<open>int\<close> keeps the value modulo
  \<open>2 ^ 32\<close>, read as two's complement.
\<close>

definition wrap32 :: "int \<Rightarrow> int" where
  "wrap32 x = (x + 2147483648) mod 4294967296 - 2147483648"

subsection \<open>The unordered map\<close>

definition umap_at :: "('k \<times> 'a) list \<Rightarrow> 'k \<Rightarrow> error + 'a" where
  "umap_at m k = (case map_of m k of None \<Rightarrow> Inl OutOfRange | Some a \<Rightarrow> Inr a)"

text \<open>
  \<^verbatim>\<open>m[k]\<close> on a map of vectors: the map afterwards (with a new, empty entry when \<open>k\<close>
  had none) and the vector the returned reference denotes.
\<close>

definition umap_index :: "('k \<times> 'a list) list \<Rightarrow> 'k \<Rightarrow> ('k \<times> 'a list) list \<times> 'a list" where
  "umap_index m k = (case map_of m k of None \<Rightarrow> (m @ [(k, [])], []) | Some a \<Rightarrow> (m, a))"

text \<open>A write through the reference that \<^verbatim>\<open>m[k]\<close> returned: the entry of \<open>k\<close> is replaced.\<close>

fun umap_store :: "('k \<times> 'a) list \<Rightarrow> 'k \<Rightarrow> 'a \<Rightarrow> ('k \<times> 'a) list" where
  "umap_store [] k a = []"
| "umap_store (p # ps) k a = (if fst p = k then (k, a) # ps else p # umap_store ps k a)"

subsection \<open>Counting\<close>

definition NumVertices :: "('v, 'w) graph \<Rightarrow> int" where
  "NumVertices g = wrap32 (int (length (Vertices g)))"

text \<open>
  The loop of \<^verbatim>\<open>NumEdges\<close>: \<^verbatim>\<open>count += keyVertex.second.size()\<close> adds in \<^verbatim>\<open>size_t\<close> and
  narrows the sum back to \<^verbatim>\<open>int\<close>.
\<close>

fun NumEdges_loop :: "('v \<times> ('v \<times> 'w) list) list \<Rightarrow> int \<Rightarrow> int" where
  "NumEdges_loop [] count = count"
| "NumEdges_loop (keyVertex # rest) count =
     NumEdges_loop rest (wrap32 (count + int (length (snd keyVertex))))"

definition NumEdges :: "('v, 'w) graph \<Rightarrow> int" where
  "NumEdges g = NumEdges_loop (adjList g) 0"

subsection \<open>Lookup of a vertex\<close>

text \<open>
  \<^verbatim>\<open>_LookupVertex\<close>, named \<open>LookupVertex\<close> here:
  \<^verbatim>\<open>for (int i = 0; i < this->NumVertices(); ++i) if (this->Vertices[i] == v) return i;\<close>
  and \<open>- 1\<close> after the loop. The index stays below \<^verbatim>\<open>NumVertices()\<close>, so \<^verbatim>\<open>++i\<close> never
  overflows.
\<close>

function LookupVertex_loop :: "('v, 'w) graph \<Rightarrow> 'v \<Rightarrow> int \<Rightarrow> int" where
  "LookupVertex_loop g v i =
     (if i < NumVertices g
      then (if Vertices g ! nat i = v then i else LookupVertex_loop g v (i + 1))
      else - 1)"
  by pat_completeness auto
termination
  by (relation "measure (\<lambda>(g, v, i). nat (NumVertices g - i))") auto

definition LookupVertex :: "('v, 'w) graph \<Rightarrow> 'v \<Rightarrow> int" where
  "LookupVertex g v = LookupVertex_loop g v 0"

text \<open>
  The test that \<^verbatim>\<open>addEdge\<close>, \<^verbatim>\<open>getWeight\<close> and \<^verbatim>\<open>neighbors\<close> make of a vertex before they
  use it: a vertex is registered when the lookup finds it.
\<close>

definition registered :: "('v, 'w) graph \<Rightarrow> 'v \<Rightarrow> bool" where
  "registered g v = (\<not> LookupVertex g v < 0)"

subsection \<open>addVertex\<close>

text \<open>The range-for over \<^verbatim>\<open>Vertices\<close> that returns false at the first equal element.\<close>

fun addVertex_scan :: "'v list \<Rightarrow> 'v \<Rightarrow> bool" where
  "addVertex_scan [] v = False"
| "addVertex_scan (i # rest) v = (if i = v then True else addVertex_scan rest v)"

definition addVertex :: "('v, 'w) graph \<Rightarrow> 'v \<Rightarrow> bool \<times> ('v, 'w) graph" where
  "addVertex g v =
     (if addVertex_scan (Vertices g) v then (False, g)
      else (True, g\<lparr>Vertices := Vertices g @ [v]\<rparr>))"

subsection \<open>addEdge\<close>

text \<open>
  The loop over \<^verbatim>\<open>adjList[from]\<close> by reference: at the first record whose destination is
  \<open>to\<close> the weight is overwritten and the function returns; \<open>None\<close> when the loop
  ends without a match.
\<close>

fun addEdge_scan :: "('v \<times> 'w) list \<Rightarrow> 'v \<Rightarrow> 'w \<Rightarrow> ('v \<times> 'w) list option" where
  "addEdge_scan [] to weight = None"
| "addEdge_scan (edgeVector # rest) to weight =
     (if fst edgeVector = to then Some ((fst edgeVector, weight) # rest)
      else map_option ((#) edgeVector) (addEdge_scan rest to weight))"

definition addEdge :: "('v, 'w) graph \<Rightarrow> 'v \<Rightarrow> 'v \<Rightarrow> 'w \<Rightarrow> bool \<times> ('v, 'w) graph" where
  "addEdge g from to weight =
     (if LookupVertex g from < 0 \<or> LookupVertex g to < 0 then (False, g)
      else
        (case umap_index (adjList g) from of (m, edges) \<Rightarrow>
          (case addEdge_scan edges to weight of
             Some edges' \<Rightarrow> (True, g\<lparr>adjList := umap_store m from edges'\<rparr>)
           | None \<Rightarrow> (True, g\<lparr>adjList := umap_store m from (edges @ [(to, weight)])\<rparr>))))"

subsection \<open>getWeight\<close>

fun getWeight_scan :: "('v \<times> 'w) list \<Rightarrow> 'v \<Rightarrow> 'w option" where
  "getWeight_scan [] to = None"
| "getWeight_scan (edge # rest) to =
     (if fst edge = to then Some (snd edge) else getWeight_scan rest to)"

text \<open>
  The result is the returned flag together with the value of the reference parameter
  \<open>weight\<close> after the call, or the exception that left the function.
\<close>

definition getWeight :: "('v, 'w) graph \<Rightarrow> 'v \<Rightarrow> 'v \<Rightarrow> 'w \<Rightarrow> error + (bool \<times> 'w)" where
  "getWeight g from to weight =
     (if LookupVertex g from < 0 \<or> LookupVertex g to < 0 then Inr (False, weight)
      else
        (case umap_at (adjList g) from of
           Inl e \<Rightarrow> Inl e
         | Inr targetVertex \<Rightarrow>
             (case getWeight_scan targetVertex to of
                Some w \<Rightarrow> Inr (True, w)
              | None \<Rightarrow> Inr (False, weight))))"

subsection \<open>neighbors\<close>

text \<open>
  \<^verbatim>\<open>std::set<VertexT>\<close> is the strictly increasing list of its elements, which is the
  order of its iteration; \<^verbatim>\<open>insert\<close> keeps an element that is already there.
\<close>

fun set_insert :: "'v::linorder \<Rightarrow> 'v list \<Rightarrow> 'v list" where
  "set_insert x [] = [x]"
| "set_insert x (y # ys) =
     (if y < x then y # set_insert x ys else if y = x then y # ys else x # y # ys)"

fun neighbors_loop :: "('v::linorder \<times> 'w) list \<Rightarrow> 'v list \<Rightarrow> 'v list" where
  "neighbors_loop [] S = S"
| "neighbors_loop (key # rest) S = neighbors_loop rest (set_insert (fst key) S)"

definition neighbors :: "('v::linorder, 'w) graph \<Rightarrow> 'v \<Rightarrow> error + 'v list" where
  "neighbors g v =
     (if LookupVertex g v < 0 then Inr []
      else
        (case umap_at (adjList g) v of
           Inl e \<Rightarrow> Inl e
         | Inr targetVector \<Rightarrow> Inr (neighbors_loop targetVector [])))"

subsection \<open>getVertices\<close>

definition getVertices :: "('v, 'w) graph \<Rightarrow> 'v list" where
  "getVertices g = Vertices g"

subsection \<open>dump\<close>

text \<open>
  Output streams are objects that the caller and the function may share, so they live
  in a store: \<open>Cout\<close> is \<^verbatim>\<open>std::cout\<close>, \<open>Stream n\<close> any other \<^verbatim>\<open>ostream\<close> of the
  caller (a file, a string stream). The store gives the text written to each so far.
  \<^verbatim>\<open>operator<<\<close> of the vertex and of the weight type are the parameters \<open>showV\<close> and
  \<open>showW\<close>; \<^verbatim>\<open>endl\<close> writes a newline.
\<close>

datatype ostream = Cout | Stream nat

type_synonym streams = "ostream \<Rightarrow> string"

definition put :: "ostream \<Rightarrow> string \<Rightarrow> streams \<Rightarrow> streams" where
  "put s txt st = st(s := st s @ txt)"

definition endl :: string where
  "endl = [CHR 0x0A]"

fun dump_edges :: "('v \<Rightarrow> string) \<Rightarrow> ('w \<Rightarrow> string) \<Rightarrow> 'v \<Rightarrow> ('v \<times> 'w) list \<Rightarrow> streams \<Rightarrow> streams" where
  "dump_edges showV showW first [] st = st"
| "dump_edges showV showW first (vector # rest) st =
     dump_edges showV showW first rest
       (put Cout (''('' @ showV first @ '','' @ showV (fst vector) @ '','' @ showW (snd vector) @ '') '') st)"

fun dump_loop :: "('v \<Rightarrow> string) \<Rightarrow> ('w \<Rightarrow> string) \<Rightarrow> ('v \<times> ('v \<times> 'w) list) list \<Rightarrow> streams \<Rightarrow> streams" where
  "dump_loop showV showW [] st = st"
| "dump_loop showV showW (vertice # rest) st =
     dump_loop showV showW rest
       (put Cout endl
         (dump_edges showV showW (fst vertice) (snd vertice)
           (put Cout (showV (fst vertice) @ '': '') st)))"

text \<open>The parameter \<open>output\<close> is the \<^verbatim>\<open>ostream&\<close> that the caller passes.\<close>

definition dump :: "('v \<Rightarrow> string) \<Rightarrow> ('w \<Rightarrow> string) \<Rightarrow> ('v, 'w) graph \<Rightarrow> ostream \<Rightarrow> streams \<Rightarrow> streams" where
  "dump showV showW g output st = dump_loop showV showW (adjList g) st"

subsection \<open>Callers and vector objects\<close>

text \<open>
  Whether a caller can reach the registry through what \<^verbatim>\<open>getVertices\<close> returns is a
  question about objects, so here vectors are objects in a store: \<open>vectors s a\<close> is the
  content of the vector at address \<open>a\<close>, and the addresses below \<open>next_free s\<close> are in
  use. The graph object holds its member \<^verbatim>\<open>Vertices\<close> at the address \<open>this_Vertices s\<close>
  and its member \<^verbatim>\<open>adjList\<close> as before; \<open>G s\<close> is the graph state read from the store.
\<close>

record ('v, 'w) world =
  vectors :: "nat \<Rightarrow> 'v list"
  next_free :: nat
  this_adjList :: "('v \<times> ('v \<times> 'w) list) list"
  this_Vertices :: nat

definition G :: "('v, 'w) world \<Rightarrow> ('v, 'w) graph" where
  "G s = \<lparr>adjList = this_adjList s, Vertices = vectors s (this_Vertices s)\<rparr>"

text \<open>
  \<^verbatim>\<open>vector<VertexT> getVertices() const { return this->Vertices; }\<close> returns by value: the
  result is a new vector object, copy-constructed from the member. The call gives the
  address of that object and the store that holds it.
\<close>

definition call_getVertices :: "('v, 'w) world \<Rightarrow> nat \<times> ('v, 'w) world" where
  "call_getVertices s =
     (next_free s,
      s\<lparr>vectors := (vectors s)(next_free s := getVertices (G s)),
        next_free := Suc (next_free s)\<rparr>)"

text \<open>Any change \<open>f\<close> that a caller makes to the vector at the address \<open>a\<close>.\<close>

definition mutate :: "('v, 'w) world \<Rightarrow> nat \<Rightarrow> ('v list \<Rightarrow> 'v list) \<Rightarrow> ('v, 'w) world" where
  "mutate s a f = s\<lparr>vectors := (vectors s)(a := f (vectors s a))\<rparr>"

text \<open>The two mutating operations, and a sequence of them run from a state.\<close>

datatype ('v, 'w) op = AddVertex 'v | AddEdge 'v 'v 'w

fun apply_op :: "('v, 'w) graph \<Rightarrow> ('v, 'w) op \<Rightarrow> bool \<times> ('v, 'w) graph" where
  "apply_op g (AddVertex v) = addVertex g v"
| "apply_op g (AddEdge from to weight) = addEdge g from to weight"

fun run :: "('v, 'w) graph \<Rightarrow> ('v, 'w) op list \<Rightarrow> ('v, 'w) graph" where
  "run g [] = g"
| "run g (c # cs) = run (snd (apply_op g c)) cs"

text \<open>The sources of the \<^verbatim>\<open>addEdge\<close> calls of a run that returned true.\<close>

fun edge_source :: "('v, 'w) graph \<Rightarrow> ('v, 'w) op \<Rightarrow> 'v list" where
  "edge_source g (AddVertex v) = []"
| "edge_source g (AddEdge from to weight) =
     (if fst (addEdge g from to weight) then [from] else [])"

fun edge_sources :: "('v, 'w) graph \<Rightarrow> ('v, 'w) op list \<Rightarrow> 'v list" where
  "edge_sources g [] = []"
| "edge_sources g (c # cs) = edge_source g c @ edge_sources (snd (apply_op g c)) cs"

subsection \<open>The structural invariants\<close>

definition no_duplicate_vertices :: "('v, 'w) graph \<Rightarrow> bool" where
  "no_duplicate_vertices g = distinct (Vertices g)"

definition edges_reference_vertices :: "('v, 'w) graph \<Rightarrow> bool" where
  "edges_reference_vertices g =
     (\<forall>p \<in> set (adjList g). fst p \<in> set (Vertices g) \<and> (\<forall>e \<in> set (snd p). fst e \<in> set (Vertices g)))"

definition one_record_per_pair :: "('v, 'w) graph \<Rightarrow> bool" where
  "one_record_per_pair g =
     (distinct (map fst (adjList g)) \<and> (\<forall>p \<in> set (adjList g). distinct (map fst (snd p))))"

definition no_empty_entry :: "('v, 'w) graph \<Rightarrow> bool" where
  "no_empty_entry g = (\<forall>p \<in> set (adjList g). snd p \<noteq> [])"

text \<open>
  What \<^verbatim>\<open>adjList\<close> holds apart from the weights: per entry the source and the
  destinations of its records, in their order.
\<close>

definition edge_keys :: "('v, 'w) graph \<Rightarrow> ('v \<times> 'v list) list" where
  "edge_keys g = map (\<lambda>p. (fst p, map fst (snd p))) (adjList g)"

text \<open>The invariants together.\<close>

definition invariants :: "('v, 'w) graph \<Rightarrow> bool" where
  "invariants g =
     (no_duplicate_vertices g \<and> edges_reference_vertices g \<and> one_record_per_pair g
      \<and> no_empty_entry g)"

section \<open>Properties\<close>

declare LookupVertex_loop.simps [simp del]

subsection \<open>The narrowing\<close>

lemma wrap32_le: "wrap32 (int n) \<le> int n"
proof -
  have "(int n + 2147483648) mod 4294967296 \<le> int n + 2147483648"
    by (rule zmod_le_nonneg_dividend) simp
  then show ?thesis by (simp add: wrap32_def)
qed

lemma wrap32_id: "0 \<le> x \<Longrightarrow> x < 2147483648 \<Longrightarrow> wrap32 x = x"
  by (simp add: wrap32_def)

lemma mod_succ_int:
  fixes x A B :: int
  assumes "0 < B" and "(x + A) mod B \<noteq> B - 1"
  shows "(x + 1 + A) mod B = (x + A) mod B + 1"
proof -
  define y where "y = (x + A) mod B"
  have "0 \<le> y" "y < B" using assms(1) by (simp_all add: y_def)
  with assms(2) have small: "0 \<le> y + 1" "y + 1 < B" by (simp_all add: y_def)
  have "(x + 1 + A) mod B = ((x + A) + 1) mod B" by (simp add: add.commute add.left_commute)
  also have "\<dots> = (y + 1) mod B" unfolding y_def by (simp add: mod_add_left_eq)
  also have "\<dots> = y + 1" using small by (rule mod_pos_pos_trivial)
  finally show ?thesis by (simp add: y_def)
qed

lemma wrap32_Suc: "wrap32 x \<noteq> 2147483647 \<Longrightarrow> wrap32 (x + 1) = wrap32 x + 1"
  using mod_succ_int [of 4294967296 x 2147483648] by (simp add: wrap32_def)

subsection \<open>Lookup\<close>

lemma LookupVertex_loop_found:
  "0 \<le> i \<Longrightarrow> 0 \<le> LookupVertex_loop g v i \<Longrightarrow> v \<in> set (Vertices g)"
proof (induction g v i rule: LookupVertex_loop.induct)
  case (1 g v i)
  show ?case
  proof (cases "i < NumVertices g")
    case False
    with "1.prems" show ?thesis by (simp add: LookupVertex_loop.simps [of g v i])
  next
    case True
    have "NumVertices g \<le> int (length (Vertices g))"
      by (simp add: NumVertices_def wrap32_le)
    with True "1.prems"(1) have inb: "nat i < length (Vertices g)" by simp
    show ?thesis
    proof (cases "Vertices g ! nat i = v")
      case True
      with inb show ?thesis by (metis nth_mem)
    next
      case False
      with \<open>i < NumVertices g\<close> "1.prems" have "0 \<le> LookupVertex_loop g v (i + 1)"
        by (simp add: LookupVertex_loop.simps [of g v i])
      with "1.IH" \<open>i < NumVertices g\<close> False "1.prems"(1) show ?thesis by simp
    qed
  qed
qed

lemma registered_in_Vertices: "registered g v \<Longrightarrow> v \<in> set (Vertices g)"
  using LookupVertex_loop_found [of 0 g v] by (simp add: registered_def LookupVertex_def)

lemma LookupVertex_loop_finds:
  "0 \<le> i \<Longrightarrow> i \<le> j \<Longrightarrow> j < NumVertices g \<Longrightarrow> Vertices g ! nat j = v
     \<Longrightarrow> 0 \<le> LookupVertex_loop g v i"
proof (induction g v i rule: LookupVertex_loop.induct)
  case (1 g v i)
  from "1.prems" have lt: "i < NumVertices g" by simp
  show ?case
  proof (cases "Vertices g ! nat i = v")
    case True
    with lt "1.prems"(1) show ?thesis by (simp add: LookupVertex_loop.simps [of g v i])
  next
    case False
    with "1.prems" have "i \<noteq> j" by auto
    with "1.prems" have "i + 1 \<le> j" by simp
    with "1.IH" lt False "1.prems" have "0 \<le> LookupVertex_loop g v (i + 1)" by simp
    with lt False show ?thesis by (simp add: LookupVertex_loop.simps [of g v i])
  qed
qed

text \<open>
  As long as the registry holds fewer than \<open>2 ^ 31\<close> vertices, the lookup finds exactly
  the vertices of the registry.
\<close>

lemma in_Vertices_registered:
  assumes "length (Vertices g) < 2147483648" and "v \<in> set (Vertices g)"
  shows "registered g v"
proof -
  from assms(2) obtain j where j: "j < length (Vertices g)" "Vertices g ! j = v"
    by (auto simp: in_set_conv_nth)
  from assms(1) have "NumVertices g = int (length (Vertices g))"
    by (simp add: NumVertices_def wrap32_id)
  with j have "0 \<le> LookupVertex_loop g v 0"
    using LookupVertex_loop_finds [of 0 "int j" g v] by simp
  then show ?thesis by (simp add: registered_def LookupVertex_def)
qed

lemma LookupVertex_loop_cong:
  "Vertices g' = Vertices g \<Longrightarrow> LookupVertex_loop g' v i = LookupVertex_loop g v i"
proof (induction g v i rule: LookupVertex_loop.induct)
  case (1 g v i)
  have N: "NumVertices g' = NumVertices g"
    using "1.prems" by (simp add: NumVertices_def)
  have step: "i < NumVertices g \<Longrightarrow> Vertices g ! nat i \<noteq> v \<Longrightarrow>
      LookupVertex_loop g' v (i + 1) = LookupVertex_loop g v (i + 1)"
    using "1.IH" "1.prems" by blast
  have "LookupVertex_loop g' v i =
      (if i < NumVertices g
       then (if Vertices g ! nat i = v then i else LookupVertex_loop g' v (i + 1))
       else - 1)"
    by (subst LookupVertex_loop.simps) (simp only: N "1.prems")
  also have "\<dots> = (if i < NumVertices g
       then (if Vertices g ! nat i = v then i else LookupVertex_loop g v (i + 1))
       else - 1)"
    using step by auto
  also have "\<dots> = LookupVertex_loop g v i"
    by (subst (2) LookupVertex_loop.simps) (rule refl)
  finally show ?case .
qed

lemma LookupVertex_cong: "Vertices g' = Vertices g \<Longrightarrow> LookupVertex g' v = LookupVertex g v"
  using LookupVertex_loop_cong [of g' g v 0] by (simp add: LookupVertex_def)

subsection \<open>The scans and the map operations\<close>

lemma addVertex_scan_iff: "addVertex_scan xs v = (v \<in> set xs)"
  by (induction xs) auto

lemma umap_store_absent: "map_of m k = None \<Longrightarrow> umap_store m k a = m"
  by (induction m) (auto split: if_splits)

lemma map_of_umap_store:
  "map_of m k = Some b \<Longrightarrow> map_of (umap_store m k a) = (map_of m)(k \<mapsto> a)"
  by (induction m) (auto split: if_splits)

lemma keys_umap_store: "map fst (umap_store m k a) = map fst m"
  by (induction m) auto

lemma set_umap_store:
  "map_of m k = Some b \<Longrightarrow> set (umap_store m k a) \<subseteq> insert (k, a) (set m)"
  by (induction m) (auto split: if_splits)

lemma umap_index_entry: "umap_index m k = (m', es) \<Longrightarrow> map_of m' k = Some es"
  by (auto simp: umap_index_def map_add_def split: option.splits)

lemma umap_index_present: "map_of m k = Some es \<Longrightarrow> umap_index m k = (m, es)"
  by (simp add: umap_index_def)

lemma umap_index_absent: "map_of m k = None \<Longrightarrow> umap_index m k = (m @ [(k, [])], [])"
  by (simp add: umap_index_def)

lemma addEdge_scan_Some_weight:
  "addEdge_scan es to w = Some es' \<Longrightarrow> getWeight_scan es' to = Some w"
  by (induction es arbitrary: es') (auto split: if_splits)

lemma addEdge_scan_Some_shape:
  "addEdge_scan es to w = Some es' \<Longrightarrow> map fst es' = map fst es"
  by (induction es arbitrary: es') (auto split: if_splits)

lemma addEdge_scan_None: "addEdge_scan es to w = None \<Longrightarrow> to \<notin> fst ` set es"
  by (induction es) (auto split: if_splits)

lemma getWeight_scan_append_new:
  "addEdge_scan es to w = None \<Longrightarrow> getWeight_scan (es @ [(to, w)]) to = Some w"
  by (induction es) (auto split: if_splits)

lemma getWeight_scan_Some_addEdge_scan:
  "getWeight_scan es to = Some w \<Longrightarrow> \<exists>es'. addEdge_scan es to w' = Some es'"
  by (induction es) (auto split: if_splits)

lemma getWeight_scan_None: "getWeight_scan es to = None \<longleftrightarrow> to \<notin> fst ` set es"
  by (induction es) auto

lemma NumEdges_loop_shape:
  "map (\<lambda>p. length (snd p)) m = map (\<lambda>p. length (snd p)) m'
     \<Longrightarrow> NumEdges_loop m c = NumEdges_loop m' c"
proof (induction m arbitrary: m' c)
  case Nil
  then show ?case by simp
next
  case (Cons p ps)
  then obtain q qs where m': "m' = q # qs" by (cases m') auto
  with Cons.prems have "length (snd p) = length (snd q)"
    and "map (\<lambda>p. length (snd p)) ps = map (\<lambda>p. length (snd p)) qs" by simp_all
  with Cons.IH [of qs] m' show ?case by simp
qed

lemma umap_store_shape:
  "map_of m k = Some es \<Longrightarrow> map fst es' = map fst es
     \<Longrightarrow> map (\<lambda>p. (fst p, map fst (snd p))) (umap_store m k es')
         = map (\<lambda>p. (fst p, map fst (snd p))) m"
  by (induction m) (auto split: if_splits)

subsection \<open>What addEdge does to the state\<close>

lemma addEdge_Vertices: "Vertices (snd (addEdge g from to w)) = Vertices g"
  by (simp add: addEdge_def split: prod.splits option.splits)

lemma addEdge_registered:
  "registered (snd (addEdge g from to w)) v = registered g v"
  by (simp add: registered_def LookupVertex_cong [OF addEdge_Vertices])

lemma addEdge_rejects:
  "\<not> registered g from \<or> \<not> registered g to \<Longrightarrow> addEdge g from to w = (False, g)"
  by (auto simp: addEdge_def registered_def)

lemma addEdge_accepts:
  "registered g from \<Longrightarrow> registered g to \<Longrightarrow> fst (addEdge g from to w)"
  by (auto simp: addEdge_def registered_def split: prod.splits option.splits)

lemma addEdge_entry:
  assumes "registered g from" and "registered g to"
  shows "\<exists>es. map_of (adjList (snd (addEdge g from to w))) from = Some es
            \<and> getWeight_scan es to = Some w"
proof -
  obtain m edges where ix: "umap_index (adjList g) from = (m, edges)"
    by (cases "umap_index (adjList g) from")
  then have m: "map_of m from = Some edges" by (rule umap_index_entry)
  show ?thesis
  proof (cases "addEdge_scan edges to w")
    case None
    with assms ix have "adjList (snd (addEdge g from to w)) = umap_store m from (edges @ [(to, w)])"
      by (simp add: addEdge_def registered_def)
    with m None show ?thesis
      by (simp add: map_of_umap_store getWeight_scan_append_new)
  next
    case (Some edges')
    with assms ix have "adjList (snd (addEdge g from to w)) = umap_store m from edges'"
      by (simp add: addEdge_def registered_def)
    with m Some show ?thesis
      by (simp add: map_of_umap_store addEdge_scan_Some_weight)
  qed
qed

lemma getWeight_entry:
  "registered g from \<Longrightarrow> registered g to \<Longrightarrow> map_of (adjList g) from = Some es
     \<Longrightarrow> getWeight g from to w0 =
         (case getWeight_scan es to of Some w \<Rightarrow> Inr (True, w) | None \<Rightarrow> Inr (False, w0))"
  by (simp add: getWeight_def registered_def umap_at_def)

lemma getWeight_no_entry:
  "registered g from \<Longrightarrow> registered g to \<Longrightarrow> map_of (adjList g) from = None
     \<Longrightarrow> getWeight g from to w0 = Inl OutOfRange"
  by (simp add: getWeight_def registered_def umap_at_def)

lemma getWeight_unregistered:
  "\<not> registered g from \<or> \<not> registered g to \<Longrightarrow> getWeight g from to w0 = Inr (False, w0)"
  by (auto simp: getWeight_def registered_def)

lemma getWeight_after_addEdge:
  assumes "registered g from" and "registered g to"
  shows "fst (addEdge g from to w)
    \<and> getWeight (snd (addEdge g from to w)) from to w0 = Inr (True, w)"
proof -
  from addEdge_entry [OF assms, of w] obtain es
    where es: "map_of (adjList (snd (addEdge g from to w))) from = Some es"
      "getWeight_scan es to = Some w" by blast
  from assms have "registered (snd (addEdge g from to w)) from"
    "registered (snd (addEdge g from to w)) to"
    by (simp_all add: addEdge_registered)
  then have "getWeight (snd (addEdge g from to w)) from to w0 = Inr (True, w)"
    using es by (simp add: getWeight_entry)
  with addEdge_accepts [OF assms] show ?thesis by simp
qed

lemma addEdge_overwrite_shape:
  assumes "registered g from" and "registered g to"
    and "map_of (adjList g) from = Some es" and "getWeight_scan es to = Some w1"
  shows "map (\<lambda>p. (fst p, map fst (snd p))) (adjList (snd (addEdge g from to w)))
           = map (\<lambda>p. (fst p, map fst (snd p))) (adjList g)"
proof -
  from assms(4) obtain es' where es': "addEdge_scan es to w = Some es'"
    using getWeight_scan_Some_addEdge_scan by fastforce
  with assms have "adjList (snd (addEdge g from to w)) = umap_store (adjList g) from es'"
    by (simp add: addEdge_def registered_def umap_index_present)
  with assms(3) es' show ?thesis
    by (simp add: umap_store_shape addEdge_scan_Some_shape)
qed

lemma NumEdges_shape:
  assumes "map (\<lambda>p. (fst p, map fst (snd p))) (adjList g')
             = map (\<lambda>p. (fst p, map fst (snd p))) (adjList g)"
  shows "NumEdges g' = NumEdges g"
proof -
  have "map (\<lambda>p. length (snd p)) (adjList g')
          = map (\<lambda>q. length (snd q)) (map (\<lambda>p. (fst p, map fst (snd p))) (adjList g'))"
    by (simp add: comp_def)
  also have "\<dots> = map (\<lambda>p. length (snd p)) (adjList g)"
    by (simp add: assms comp_def)
  finally show ?thesis
    unfolding NumEdges_def by (rule NumEdges_loop_shape)
qed

subsection \<open>neighbors\<close>

lemma set_set_insert: "set (set_insert x S) = insert x (set S)"
  by (induction S) auto

lemma sorted_set_insert: "sorted_wrt (<) S \<Longrightarrow> sorted_wrt (<) (set_insert x S)"
  by (induction S) (auto simp: set_set_insert)

lemma set_neighbors_loop: "set (neighbors_loop es S) = fst ` set es \<union> set S"
  by (induction es arbitrary: S) (auto simp: set_set_insert)

lemma sorted_neighbors_loop:
  "sorted_wrt (<) S \<Longrightarrow> sorted_wrt (<) (neighbors_loop es S)"
  by (induction es arbitrary: S) (auto simp: sorted_set_insert)

lemma neighbors_unregistered: "\<not> registered g v \<Longrightarrow> neighbors g v = Inr []"
  by (simp add: neighbors_def registered_def)

lemma neighbors_entry:
  assumes "registered g v" and "map_of (adjList g) v = Some es"
  shows "\<exists>S. neighbors g v = Inr S \<and> set S = fst ` set es \<and> sorted_wrt (<) S"
proof -
  have "neighbors g v = Inr (neighbors_loop es [])"
    using assms by (simp add: neighbors_def registered_def umap_at_def)
  moreover have "set (neighbors_loop es []) = fst ` set es"
    by (simp add: set_neighbors_loop)
  moreover have "sorted_wrt (<) (neighbors_loop es [])"
    by (rule sorted_neighbors_loop) simp
  ultimately show ?thesis by blast
qed

lemma neighbors_no_entry:
  "registered g v \<Longrightarrow> map_of (adjList g) v = None \<Longrightarrow> neighbors g v = Inl OutOfRange"
  by (simp add: neighbors_def registered_def umap_at_def)

subsection \<open>dump\<close>

lemma dump_edges_other: "s \<noteq> Cout \<Longrightarrow> dump_edges showV showW first es st s = st s"
  by (induction es arbitrary: st) (simp_all add: put_def)

lemma dump_loop_other: "s \<noteq> Cout \<Longrightarrow> dump_loop showV showW m st s = st s"
  by (induction m arbitrary: st) (simp_all add: put_def dump_edges_other)

lemma dump_writes_to_cout_only: "s \<noteq> Cout \<Longrightarrow> dump showV showW g output st s = st s"
  by (simp add: dump_def dump_loop_other)

lemma dump_edges_cout:
  "dump_edges showV showW first es st Cout =
     st Cout @ concat (map (\<lambda>e. ''('' @ showV first @ '','' @ showV (fst e) @ '','' @ showW (snd e) @ '') '') es)"
  by (induction es arbitrary: st) (simp_all add: put_def)

lemma dump_loop_cout:
  "dump_loop showV showW m st Cout =
     st Cout @ concat (map (\<lambda>p. showV (fst p) @ '': ''
        @ concat (map (\<lambda>e. ''('' @ showV (fst p) @ '','' @ showV (fst e) @ '','' @ showW (snd e) @ '') '') (snd p))
        @ endl) m)"
  by (induction m arbitrary: st) (simp_all add: put_def dump_edges_cout)

subsection \<open>The entries of the adjacency list after addEdge\<close>

lemma map_of_None_keys: "map_of m k = None \<Longrightarrow> k \<notin> fst ` set m"
  by (simp add: map_of_eq_None_iff)

lemma umap_store_entries:
  "distinct (map fst m) \<Longrightarrow> map_of m k = Some b
     \<Longrightarrow> set (umap_store m k a) = insert (k, a) {p \<in> set m. fst p \<noteq> k}"
proof (induction m)
  case Nil
  then show ?case by simp
next
  case (Cons p ps)
  show ?case
  proof (cases "fst p = k")
    case True
    with Cons.prems(1) have "k \<notin> fst ` set ps" by auto
    then have "\<forall>q \<in> set ps. fst q \<noteq> k" by blast
    with True show ?thesis by auto
  next
    case False
    with Cons.prems have "map_of ps k = Some b" "distinct (map fst ps)"
      by (auto split: if_splits)
    with Cons.IH False show ?thesis by auto
  qed
qed

lemma addEdge_entries:
  assumes "registered g from" and "registered g to" and "distinct (map fst (adjList g))"
  shows "\<exists>es es'.
      (map_of (adjList g) from = Some es \<or> map_of (adjList g) from = None \<and> es = [])
    \<and> (addEdge_scan es to w = Some es' \<or> addEdge_scan es to w = None \<and> es' = es @ [(to, w)])
    \<and> set (adjList (snd (addEdge g from to w)))
         = insert (from, es') {p \<in> set (adjList g). fst p \<noteq> from}
    \<and> distinct (map fst (adjList (snd (addEdge g from to w))))"
proof -
  obtain m es where ix: "umap_index (adjList g) from = (m, es)"
    by (cases "umap_index (adjList g) from")
  then have m: "map_of m from = Some es" by (rule umap_index_entry)
  have old: "map_of (adjList g) from = Some es \<or> map_of (adjList g) from = None \<and> es = []"
    using ix by (auto simp: umap_index_def split: option.splits)
  have dm: "distinct (map fst m)"
    using ix assms(3) by (auto simp: umap_index_def split: option.splits dest: map_of_None_keys)
  have rest: "{p \<in> set m. fst p \<noteq> from} = {p \<in> set (adjList g). fst p \<noteq> from}"
    using ix by (auto simp: umap_index_def split: option.splits)
  define es' where "es' = (case addEdge_scan es to w of Some e \<Rightarrow> e | None \<Rightarrow> es @ [(to, w)])"
  have new: "addEdge_scan es to w = Some es' \<or> addEdge_scan es to w = None \<and> es' = es @ [(to, w)]"
    by (simp add: es'_def split: option.splits)
  have adj: "adjList (snd (addEdge g from to w)) = umap_store m from es'"
    using assms(1,2) ix by (simp add: addEdge_def registered_def es'_def split: option.splits)
  have "set (adjList (snd (addEdge g from to w)))
          = insert (from, es') {p \<in> set (adjList g). fst p \<noteq> from}"
    using umap_store_entries [OF dm m, of es'] adj rest by simp
  moreover have "distinct (map fst (adjList (snd (addEdge g from to w))))"
    using adj dm by (simp add: keys_umap_store)
  ultimately show ?thesis using old new by blast
qed

lemma addEdge_scan_dests:
  "addEdge_scan es to w = Some es' \<or> addEdge_scan es to w = None \<and> es' = es @ [(to, w)]
     \<Longrightarrow> fst ` set es' = insert to (fst ` set es)
       \<and> (distinct (map fst es) \<longrightarrow> distinct (map fst es')) \<and> es' \<noteq> []"
proof (elim disjE conjE)
  assume s: "addEdge_scan es to w = Some es'"
  then have shape: "map fst es' = map fst es" by (rule addEdge_scan_Some_shape)
  from s have "getWeight_scan es' to = Some w" by (rule addEdge_scan_Some_weight)
  then have "to \<in> fst ` set es'"
    using getWeight_scan_None [of es' to] by auto
  moreover have "fst ` set es' = fst ` set es"
    using shape by (metis set_map)
  ultimately show ?thesis using shape by auto
next
  assume "addEdge_scan es to w = None" and "es' = es @ [(to, w)]"
  then show ?thesis using addEdge_scan_None [of es to w] by auto
qed

subsection \<open>Every operation keeps the invariants\<close>

lemma invariants_empty: "invariants empty_graph"
  by (simp add: invariants_def empty_graph_def no_duplicate_vertices_def
      edges_reference_vertices_def one_record_per_pair_def no_empty_entry_def)

lemma invariants_addVertex: "invariants g \<Longrightarrow> invariants (snd (addVertex g v))"
  by (auto simp: invariants_def addVertex_def addVertex_scan_iff no_duplicate_vertices_def
      edges_reference_vertices_def one_record_per_pair_def no_empty_entry_def)

lemma invariants_addEdge:
  assumes "invariants g"
  shows "invariants (snd (addEdge g from to w))"
proof (cases "registered g from \<and> registered g to")
  case False
  then have "addEdge g from to w = (False, g)" by (auto intro: addEdge_rejects)
  with assms show ?thesis by simp
next
  case True
  then have r: "registered g from" "registered g to" by simp_all
  let ?g' = "snd (addEdge g from to w)"
  from assms have dk: "distinct (map fst (adjList g))"
    by (simp add: invariants_def one_record_per_pair_def)
  from addEdge_entries [OF r dk, of w] obtain es es'
    where old: "map_of (adjList g) from = Some es \<or> map_of (adjList g) from = None \<and> es = []"
      and new: "addEdge_scan es to w = Some es' \<or> addEdge_scan es to w = None \<and> es' = es @ [(to, w)]"
      and entries: "set (adjList ?g') = insert (from, es') {p \<in> set (adjList g). fst p \<noteq> from}"
      and dk': "distinct (map fst (adjList ?g'))"
    by blast
  have V: "Vertices ?g' = Vertices g" by (rule addEdge_Vertices)
  from old have es_in: "es = [] \<or> (from, es) \<in> set (adjList g)"
    by (auto dest: map_of_SomeD)
  from addEdge_scan_dests [OF new]
  have dests: "fst ` set es' = insert to (fst ` set es)"
    and dist: "distinct (map fst es) \<longrightarrow> distinct (map fst es')"
    and ne: "es' \<noteq> []" by simp_all
  have inV: "from \<in> set (Vertices g)" "to \<in> set (Vertices g)"
    using r by (simp_all add: registered_in_Vertices)
  from assms have i1: "no_duplicate_vertices g" and i2: "edges_reference_vertices g"
    and i3: "one_record_per_pair g" and i4: "no_empty_entry g"
    by (simp_all add: invariants_def)
  have cases_entry: "p = (from, es') \<or> p \<in> set (adjList g)" if "p \<in> set (adjList ?g')" for p
    using that entries by auto
  have 1: "no_duplicate_vertices ?g'"
    using i1 V by (simp add: no_duplicate_vertices_def)
  have es_ref: "\<forall>e \<in> set es. fst e \<in> set (Vertices g)"
    using es_in i2 by (fastforce simp: edges_reference_vertices_def)
  then have "fst ` set es' \<subseteq> set (Vertices g)"
    using dests inV by auto
  then have es'_ref: "\<forall>e \<in> set es'. fst e \<in> set (Vertices g)" by auto
  have 2: "edges_reference_vertices ?g'"
    unfolding edges_reference_vertices_def
  proof (intro ballI)
    fix p assume "p \<in> set (adjList ?g')"
    then have "p = (from, es') \<or> p \<in> set (adjList g)" by (rule cases_entry)
    then show "fst p \<in> set (Vertices ?g') \<and> (\<forall>e \<in> set (snd p). fst e \<in> set (Vertices ?g'))"
    proof
      assume "p = (from, es')"
      then show ?thesis using inV es'_ref V by simp
    next
      assume "p \<in> set (adjList g)"
      then show ?thesis using i2 V by (simp add: edges_reference_vertices_def)
    qed
  qed
  have "distinct (map fst es)"
    using es_in i3 by (fastforce simp: one_record_per_pair_def)
  with dist have des': "distinct (map fst es')" by simp
  have 3: "one_record_per_pair ?g'"
    unfolding one_record_per_pair_def
  proof (intro conjI ballI)
    show "distinct (map fst (adjList ?g'))" by (rule dk')
  next
    fix p assume "p \<in> set (adjList ?g')"
    then have "p = (from, es') \<or> p \<in> set (adjList g)" by (rule cases_entry)
    then show "distinct (map fst (snd p))"
      using des' i3 by (auto simp: one_record_per_pair_def)
  qed
  have 4: "no_empty_entry ?g'"
    unfolding no_empty_entry_def
  proof (intro ballI)
    fix p assume "p \<in> set (adjList ?g')"
    then have "p = (from, es') \<or> p \<in> set (adjList g)" by (rule cases_entry)
    then show "snd p \<noteq> []"
      using ne i4 by (auto simp: no_empty_entry_def)
  qed
  from 1 2 3 4 show ?thesis by (simp add: invariants_def)
qed

lemma invariants_apply_op: "invariants g \<Longrightarrow> invariants (snd (apply_op g c))"
  by (cases c) (simp_all add: invariants_addVertex invariants_addEdge)

lemma invariants_run: "invariants g \<Longrightarrow> invariants (run g ops)"
  by (induction ops arbitrary: g) (simp_all add: invariants_apply_op)

subsection \<open>The sources that have an entry\<close>

lemma addEdge_keys:
  "fst ` set (adjList (snd (addEdge g from to w)))
     = fst ` set (adjList g) \<union> set (edge_source g (AddEdge from to w))"
proof (cases "registered g from \<and> registered g to")
  case False
  then have "addEdge g from to w = (False, g)" by (auto intro: addEdge_rejects)
  then show ?thesis by simp
next
  case True
  then have r: "registered g from" "registered g to" by simp_all
  obtain m es where ix: "umap_index (adjList g) from = (m, es)"
    by (cases "umap_index (adjList g) from")
  have "\<exists>es'. adjList (snd (addEdge g from to w)) = umap_store m from es'"
    using r ix by (cases "addEdge_scan es to w") (auto simp: addEdge_def registered_def)
  then have "set (map fst (adjList (snd (addEdge g from to w)))) = set (map fst m)"
    by (auto simp: keys_umap_store simp del: set_map)
  moreover have "set (map fst m) = insert from (fst ` set (adjList g))"
    using ix by (auto simp: umap_index_def split: option.splits dest: map_of_SomeD
        intro: rev_image_eqI)
  ultimately show ?thesis
    using addEdge_accepts [OF r, of w] by simp
qed

lemma apply_op_keys:
  "fst ` set (adjList (snd (apply_op g c))) = fst ` set (adjList g) \<union> set (edge_source g c)"
proof (cases c)
  case (AddVertex v)
  then show ?thesis by (simp add: addVertex_def)
next
  case (AddEdge a b w)
  then show ?thesis using addEdge_keys [of g a b w] by simp
qed

lemma run_keys:
  "fst ` set (adjList (run g ops)) = fst ` set (adjList g) \<union> set (edge_sources g ops)"
proof (induction ops arbitrary: g)
  case Nil
  then show ?case by simp
next
  case (Cons c cs)
  have "fst ` set (adjList (run g (c # cs)))
      = fst ` set (adjList (snd (apply_op g c))) \<union> set (edge_sources (snd (apply_op g c)) cs)"
    using Cons.IH [of "snd (apply_op g c)"] by simp
  then show ?case
    by (simp add: apply_op_keys Un_assoc)
qed

subsection \<open>Registries beyond the range of int\<close>

lemma not_registered_if_count_not_positive: "NumVertices g \<le> 0 \<Longrightarrow> \<not> registered g v"
  by (simp add: registered_def LookupVertex_def LookupVertex_loop.simps [of g v 0])

lemma run_append: "run g (cs @ ds) = run (run g cs) ds"
  by (induction cs arbitrary: g) simp_all

lemma run_AddVertex_upt:
  "run empty_graph (map AddVertex (map int [0..<n]))
     = (\<lparr>adjList = [], Vertices = map int [0..<n]\<rparr> :: (int, 'w) graph)"
proof (induction n)
  case 0
  show ?case by (simp add: empty_graph_def)
next
  case (Suc n)
  have "int n \<notin> set (map int [0..<n])" by auto
  then show ?case
    using Suc by (simp add: run_append addVertex_def addVertex_scan_iff)
qed

lemma addEdge_overwrite_registered:
  assumes "registered g from" and "registered g to"
  shows "fst (addEdge (snd (addEdge g from to w1)) from to w2)
    \<and> NumEdges (snd (addEdge (snd (addEdge g from to w1)) from to w2))
        = NumEdges (snd (addEdge g from to w1))
    \<and> edge_keys (snd (addEdge (snd (addEdge g from to w1)) from to w2))
        = edge_keys (snd (addEdge g from to w1))
    \<and> getWeight (snd (addEdge (snd (addEdge g from to w1)) from to w2)) from to w0
        = Inr (True, w2)"
proof -
  define g1 where "g1 = snd (addEdge g from to w1)"
  from assms have r1: "registered g1 from" "registered g1 to"
    by (simp_all add: g1_def addEdge_registered)
  from addEdge_entry [OF assms, of w1] obtain es
    where es: "map_of (adjList g1) from = Some es" "getWeight_scan es to = Some w1"
    unfolding g1_def by blast
  have shape: "edge_keys (snd (addEdge g1 from to w2)) = edge_keys g1"
    unfolding edge_keys_def using r1 es by (rule addEdge_overwrite_shape)
  then have "NumEdges (snd (addEdge g1 from to w2)) = NumEdges g1"
    unfolding edge_keys_def by (rule NumEdges_shape)
  with shape getWeight_after_addEdge [OF r1, of w2 w0] show ?thesis
    unfolding g1_def by simp
qed

lemma wide_registry_facts:
  "(0::int) \<in> set (map int [0..<2147483648])"
  "(1::int) \<in> set (map int [0..<2147483648])"
  "\<not> registered (\<lparr>adjList = [], Vertices = map int [0..<2147483648]\<rparr> :: (int, int) graph) v"
proof -
  have "(0::int) = int 0" "(0::nat) \<in> set [0..<2147483648]" by simp_all
  then show "(0::int) \<in> set (map int [0..<2147483648])"
    unfolding set_map by (rule image_eqI)
  have "(1::int) = int 1" "(1::nat) \<in> set [0..<2147483648]" by simp_all
  then show "(1::int) \<in> set (map int [0..<2147483648])"
    unfolding set_map by (rule image_eqI)
  have "NumVertices (\<lparr>adjList = [], Vertices = map int [0..<2147483648]\<rparr> :: (int, int) graph) \<le> 0"
    by (simp add: NumVertices_def wrap32_def)
  then show "\<not> registered (\<lparr>adjList = [], Vertices = map int [0..<2147483648]\<rparr> :: (int, int) graph) v"
    by (rule not_registered_if_count_not_positive)
qed

subsection \<open>The vector that getVertices returns\<close>

lemma mutate_member:
  "G (mutate s (this_Vertices s) f) = (G s)\<lparr>Vertices := f (Vertices (G s))\<rparr>"
  by (simp add: G_def mutate_def)

lemma call_getVertices_fresh:
  "this_Vertices s < next_free s \<Longrightarrow> fst (call_getVertices s) \<noteq> this_Vertices s"
  by (simp add: call_getVertices_def)

lemma call_getVertices_const:
  "this_Vertices s < next_free s \<Longrightarrow> G (snd (call_getVertices s)) = G s"
  by (simp add: call_getVertices_def G_def)

lemma mutate_other: "a \<noteq> this_Vertices s \<Longrightarrow> G (mutate s a f) = G s"
  by (simp add: G_def mutate_def)

section \<open>The claims\<close>

text \<open>
  Claim C1: for registered vertices \<open>from\<close> and \<open>to\<close> without an edge between them,
  \<^verbatim>\<open>getWeight(from, to)\<close> returns false, leaves the weight parameter as it was and does
  not throw. The code throws when \<open>from\<close> has no entry in \<^verbatim>\<open>adjList\<close>
  (\<^verbatim>\<open>adjList.at(from)\<close>): after \<^verbatim>\<open>addVertex("A")\<close>, \<^verbatim>\<open>addVertex("B")\<close> and
  \<^verbatim>\<open>addEdge("A", "B", 5)\<close> the call \<^verbatim>\<open>getWeight("B", "A", w)\<close> leaves with
  \<^verbatim>\<open>std::out_of_range\<close>.
\<close>

theorem getWeight_missing_source_entry:
  "run empty_graph [AddVertex ''A'', AddVertex ''B'', AddEdge ''A'' ''B'' (5::int)]
     = \<lparr>adjList = [(''A'', [(''B'', 5)])], Vertices = [''A'', ''B'']\<rparr>
   \<and> registered \<lparr>adjList = [(''A'', [(''B'', 5::int)])], Vertices = [''A'', ''B'']\<rparr> ''B''
   \<and> registered \<lparr>adjList = [(''A'', [(''B'', 5::int)])], Vertices = [''A'', ''B'']\<rparr> ''A''
   \<and> getWeight \<lparr>adjList = [(''A'', [(''B'', 5::int)])], Vertices = [''A'', ''B'']\<rparr> ''B'' ''A'' 0
       = Inl OutOfRange"
  by code_simp

text \<open>
  Claim C2: \<^verbatim>\<open>neighbors(v)\<close> returns the empty set for an unregistered \<open>v\<close> and, for a
  registered \<open>v\<close>, without throwing, the set of the destinations of its records in
  increasing order, which is empty when \<open>v\<close> has no outgoing edge. The code throws for a
  registered vertex without an entry in \<^verbatim>\<open>adjList\<close> (\<^verbatim>\<open>adjList.at(v)\<close>): on an empty
  graph, after \<^verbatim>\<open>addVertex(7)\<close> the call \<^verbatim>\<open>neighbors(7)\<close> leaves with
  \<^verbatim>\<open>std::out_of_range\<close>.
\<close>

theorem neighbors_missing_entry:
  "addVertex (empty_graph :: (int, int) graph) 7 = (True, \<lparr>adjList = [], Vertices = [7]\<rparr>)
   \<and> registered \<lparr>adjList = [] :: (int \<times> (int \<times> int) list) list, Vertices = [7]\<rparr> 7
   \<and> neighbors \<lparr>adjList = [] :: (int \<times> (int \<times> int) list) list, Vertices = [7]\<rparr> 7 = Inl OutOfRange"
  by code_simp

text \<open>
  Claim C3: \<^verbatim>\<open>dump(sink)\<close> writes one line per source with outgoing edges to the sink it
  is given, and nowhere else. The code writes every line to \<^verbatim>\<open>cout\<close> and never uses its
  parameter: dumping the graph with the one edge from A to B of weight 5 to a stream
  other than \<^verbatim>\<open>cout\<close> leaves that stream empty and puts the line on \<^verbatim>\<open>cout\<close>.
\<close>

theorem dump_ignores_sink:
  "dump id id \<lparr>adjList = [(''A'', [(''B'', ''5'')])], Vertices = [''A'', ''B'']\<rparr> (Stream 0) (\<lambda>s. []) (Stream 0) = []
   \<and> dump id id \<lparr>adjList = [(''A'', [(''B'', ''5'')])], Vertices = [''A'', ''B'']\<rparr> (Stream 0) (\<lambda>s. []) Cout
       = ''A: (A,B,5) '' @ endl"
  by (simp add: dump_def put_def)

text \<open>
  Claim C4, as amended: if \<open>v\<close> is not in the registry, \<^verbatim>\<open>addVertex(v)\<close> returns true and
  appends \<open>v\<close>, so the registry grows by one element, and \<^verbatim>\<open>NumVertices()\<close> increases
  by exactly one unless it was \<open>2147483647\<close>, the largest \<^verbatim>\<open>int\<close>; if \<open>v\<close> is in the
  registry, \<^verbatim>\<open>addVertex(v)\<close> returns false and the state, hence \<^verbatim>\<open>NumVertices()\<close>, is
  unchanged.
\<close>

theorem addVertex_spec:
  "(v \<notin> set (Vertices g) \<longrightarrow>
      addVertex g v = (True, g\<lparr>Vertices := Vertices g @ [v]\<rparr>)
      \<and> length (Vertices (snd (addVertex g v))) = length (Vertices g) + 1
      \<and> (NumVertices g \<noteq> 2147483647 \<longrightarrow> NumVertices (snd (addVertex g v)) = NumVertices g + 1))
   \<and> (v \<in> set (Vertices g) \<longrightarrow>
      addVertex g v = (False, g) \<and> NumVertices (snd (addVertex g v)) = NumVertices g)"
proof -
  have "NumVertices g \<noteq> 2147483647 \<Longrightarrow>
      NumVertices (g\<lparr>Vertices := Vertices g @ [v]\<rparr>) = NumVertices g + 1"
    using wrap32_Suc [of "int (length (Vertices g))"]
    by (simp add: NumVertices_def add.commute)
  then show ?thesis
    by (simp add: addVertex_def addVertex_scan_iff)
qed

theorem addVertex_spec_witness:
  "(3::nat) \<notin> set (Vertices \<lparr>adjList = [] :: (nat \<times> (nat \<times> int) list) list, Vertices = [1, 2]\<rparr>)
   \<and> NumVertices \<lparr>adjList = [] :: (nat \<times> (nat \<times> int) list) list, Vertices = [1, 2]\<rparr> = 2
   \<and> addVertex \<lparr>adjList = [] :: (nat \<times> (nat \<times> int) list) list, Vertices = [1, 2]\<rparr> 3
       = (True, \<lparr>adjList = [], Vertices = [1, 2, 3]\<rparr>)
   \<and> NumVertices (snd (addVertex \<lparr>adjList = [] :: (nat \<times> (nat \<times> int) list) list, Vertices = [1, 2]\<rparr> 3)) = 3
   \<and> (1::nat) \<in> set (Vertices \<lparr>adjList = [] :: (nat \<times> (nat \<times> int) list) list, Vertices = [1, 2]\<rparr>)
   \<and> addVertex \<lparr>adjList = [] :: (nat \<times> (nat \<times> int) list) list, Vertices = [1, 2]\<rparr> 1
       = (False, \<lparr>adjList = [], Vertices = [1, 2]\<rparr>)"
proof -
  have n: "NumVertices \<lparr>adjList = [] :: (nat \<times> (nat \<times> int) list) list, Vertices = [1, 2]\<rparr> = 2"
    by (simp add: NumVertices_def wrap32_def)
  show ?thesis
    using addVertex_spec [of 3 "\<lparr>adjList = [] :: (nat \<times> (nat \<times> int) list) list, Vertices = [1, 2]\<rparr>"]
      addVertex_spec [of 1 "\<lparr>adjList = [] :: (nat \<times> (nat \<times> int) list) list, Vertices = [1, 2]\<rparr>"] n
    by (simp add: NumVertices_def wrap32_def)
qed

text \<open>
  Claim C4 as stated fails where the count leaves the range of \<^verbatim>\<open>int\<close>: with
  \<open>2147483647\<close> vertices registered, a new vertex is appended and \<^verbatim>\<open>NumVertices()\<close>
  goes from \<open>2147483647\<close> to \<open>- 2147483648\<close>.
\<close>

theorem addVertex_count_counterexample:
  "(2147483647::int) \<notin> set (Vertices \<lparr>adjList = [] :: (int \<times> (int \<times> int) list) list, Vertices = map int [0..<2147483647]\<rparr>)
   \<and> fst (addVertex \<lparr>adjList = [] :: (int \<times> (int \<times> int) list) list, Vertices = map int [0..<2147483647]\<rparr> 2147483647)
   \<and> NumVertices \<lparr>adjList = [] :: (int \<times> (int \<times> int) list) list, Vertices = map int [0..<2147483647]\<rparr> = 2147483647
   \<and> NumVertices (snd (addVertex \<lparr>adjList = [] :: (int \<times> (int \<times> int) list) list, Vertices = map int [0..<2147483647]\<rparr> 2147483647))
       = - 2147483648
   \<and> NumVertices (snd (addVertex \<lparr>adjList = [] :: (int \<times> (int \<times> int) list) list, Vertices = map int [0..<2147483647]\<rparr> 2147483647))
       \<noteq> NumVertices \<lparr>adjList = [] :: (int \<times> (int \<times> int) list) list, Vertices = map int [0..<2147483647]\<rparr> + 1"
proof -
  have notin: "(2147483647::int) \<notin> set (map int [0..<2147483647])"
    by auto
  then show ?thesis
    by (simp add: addVertex_def addVertex_scan_iff NumVertices_def wrap32_def)
qed

text \<open>
  Claim C5, as amended: in a graph whose registry holds fewer than \<open>2 ^ 31\<close> vertices, for
  vertices \<open>from\<close> and \<open>to\<close> of the registry, after \<^verbatim>\<open>addEdge(from, to, w1)\<close> a second
  \<^verbatim>\<open>addEdge(from, to, w2)\<close> returns true, leaves \<^verbatim>\<open>NumEdges()\<close> at its value after the
  first call and creates no record (the sources and destinations held by \<^verbatim>\<open>adjList\<close> are
  the same), and \<^verbatim>\<open>getWeight(from, to)\<close> then returns true with \<open>w2\<close>.
\<close>

theorem addEdge_overwrite:
  assumes "from \<in> set (Vertices g)" and "to \<in> set (Vertices g)"
    and "length (Vertices g) < 2147483648"
  shows "fst (addEdge (snd (addEdge g from to w1)) from to w2)
    \<and> NumEdges (snd (addEdge (snd (addEdge g from to w1)) from to w2))
        = NumEdges (snd (addEdge g from to w1))
    \<and> edge_keys (snd (addEdge (snd (addEdge g from to w1)) from to w2))
        = edge_keys (snd (addEdge g from to w1))
    \<and> getWeight (snd (addEdge (snd (addEdge g from to w1)) from to w2)) from to w0
        = Inr (True, w2)"
proof -
  have "registered g from" using assms(3,1) by (rule in_Vertices_registered)
  moreover have "registered g to" using assms(3,2) by (rule in_Vertices_registered)
  ultimately show ?thesis by (rule addEdge_overwrite_registered)
qed

theorem addEdge_overwrite_witness:
  "''A'' \<in> set (Vertices \<lparr>adjList = [] :: (string \<times> (string \<times> int) list) list, Vertices = [''A'', ''B'']\<rparr>)
   \<and> ''B'' \<in> set (Vertices \<lparr>adjList = [] :: (string \<times> (string \<times> int) list) list, Vertices = [''A'', ''B'']\<rparr>)
   \<and> length (Vertices \<lparr>adjList = [] :: (string \<times> (string \<times> int) list) list, Vertices = [''A'', ''B'']\<rparr>) < 2147483648
   \<and> snd (addEdge \<lparr>adjList = [] :: (string \<times> (string \<times> int) list) list, Vertices = [''A'', ''B'']\<rparr> ''A'' ''B'' 5)
       = \<lparr>adjList = [(''A'', [(''B'', 5)])], Vertices = [''A'', ''B'']\<rparr>
   \<and> NumEdges \<lparr>adjList = [(''A'', [(''B'', 5::int)])], Vertices = [''A'', ''B'']\<rparr> = 1
   \<and> addEdge \<lparr>adjList = [(''A'', [(''B'', 5::int)])], Vertices = [''A'', ''B'']\<rparr> ''A'' ''B'' 9
       = (True, \<lparr>adjList = [(''A'', [(''B'', 9)])], Vertices = [''A'', ''B'']\<rparr>)
   \<and> NumEdges \<lparr>adjList = [(''A'', [(''B'', 9::int)])], Vertices = [''A'', ''B'']\<rparr> = 1
   \<and> getWeight \<lparr>adjList = [(''A'', [(''B'', 9::int)])], Vertices = [''A'', ''B'']\<rparr> ''A'' ''B'' 0
       = Inr (True, 9)"
proof -
  have e: "snd (addEdge \<lparr>adjList = [] :: (string \<times> (string \<times> int) list) list, Vertices = [''A'', ''B'']\<rparr> ''A'' ''B'' 5)
       = \<lparr>adjList = [(''A'', [(''B'', 5)])], Vertices = [''A'', ''B'']\<rparr>"
    "addEdge \<lparr>adjList = [(''A'', [(''B'', 5::int)])], Vertices = [''A'', ''B'']\<rparr> ''A'' ''B'' 9
       = (True, \<lparr>adjList = [(''A'', [(''B'', 9)])], Vertices = [''A'', ''B'']\<rparr>)"
    "NumEdges \<lparr>adjList = [(''A'', [(''B'', 5::int)])], Vertices = [''A'', ''B'']\<rparr> = 1"
    by code_simp+
  show ?thesis
    using addEdge_overwrite [of "''A''" "\<lparr>adjList = [] :: (string \<times> (string \<times> int) list) list, Vertices = [''A'', ''B'']\<rparr>" "''B''" 5 9 0] e
    by simp
qed

text \<open>
  Claim C5 as stated fails where the count leaves the range of \<^verbatim>\<open>int\<close>: after
  \<open>2 ^ 31\<close> calls of \<^verbatim>\<open>addVertex\<close>, \<^verbatim>\<open>NumVertices()\<close> is negative, the loop of the
  lookup is not entered, both \<^verbatim>\<open>addEdge(0, 1, _)\<close> calls are refused although 0 and 1 are
  in the registry, and \<^verbatim>\<open>getWeight(0, 1)\<close> returns false.
\<close>

theorem addEdge_overwrite_counterexample:
  "run empty_graph (map AddVertex (map int [0..<2147483648]))
     = (\<lparr>adjList = [], Vertices = map int [0..<2147483648]\<rparr> :: (int, int) graph)
   \<and> (0::int) \<in> set (Vertices (\<lparr>adjList = [], Vertices = map int [0..<2147483648]\<rparr> :: (int, int) graph))
   \<and> (1::int) \<in> set (Vertices (\<lparr>adjList = [], Vertices = map int [0..<2147483648]\<rparr> :: (int, int) graph))
   \<and> getWeight
         (snd (addEdge
           (snd (addEdge (\<lparr>adjList = [], Vertices = map int [0..<2147483648]\<rparr> :: (int, int) graph) 0 1 5))
           0 1 9))
         0 1 0
       = Inr (False, 0)"
proof -
  let ?g = "\<lparr>adjList = [], Vertices = map int [0..<2147483648]\<rparr> :: (int, int) graph"
  have n: "\<not> registered ?g 0" by (rule wide_registry_facts)
  then have a: "addEdge ?g 0 1 5 = (False, ?g)" "addEdge ?g 0 1 9 = (False, ?g)"
    by (simp_all add: addEdge_rejects)
  have "getWeight ?g 0 1 0 = Inr (False, 0)"
    using n by (simp add: getWeight_unregistered)
  with a show ?thesis
    using run_AddVertex_upt [of 2147483648, where ?'w = int] wide_registry_facts(1,2) by simp
qed

text \<open>
  Claim C6: when \<open>from\<close> or \<open>to\<close> is not a registered vertex, \<^verbatim>\<open>addEdge(from, to, w)\<close>
  returns false and the graph state is unchanged: \<^verbatim>\<open>NumEdges()\<close>, \<^verbatim>\<open>NumVertices()\<close> and
  the adjacency list are what they were, and no entry is created.
\<close>

theorem addEdge_unregistered:
  assumes "\<not> registered g from \<or> \<not> registered g to"
  shows "addEdge g from to w = (False, g)
    \<and> NumEdges (snd (addEdge g from to w)) = NumEdges g
    \<and> NumVertices (snd (addEdge g from to w)) = NumVertices g
    \<and> adjList (snd (addEdge g from to w)) = adjList g"
  using addEdge_rejects [OF assms] by simp

theorem addEdge_unregistered_witness:
  "registered \<lparr>adjList = [] :: (nat \<times> (nat \<times> int) list) list, Vertices = [1, 2]\<rparr> 1
   \<and> \<not> registered \<lparr>adjList = [] :: (nat \<times> (nat \<times> int) list) list, Vertices = [1, 2]\<rparr> 3
   \<and> addEdge \<lparr>adjList = [] :: (nat \<times> (nat \<times> int) list) list, Vertices = [1, 2]\<rparr> 1 3 7
       = (False, \<lparr>adjList = [], Vertices = [1, 2]\<rparr>)
   \<and> addEdge \<lparr>adjList = [] :: (nat \<times> (nat \<times> int) list) list, Vertices = [1, 2]\<rparr> 3 1 7
       = (False, \<lparr>adjList = [], Vertices = [1, 2]\<rparr>)"
proof -
  have r: "registered \<lparr>adjList = [] :: (nat \<times> (nat \<times> int) list) list, Vertices = [1, 2]\<rparr> 1"
    "\<not> registered \<lparr>adjList = [] :: (nat \<times> (nat \<times> int) list) list, Vertices = [1, 2]\<rparr> 3"
    by code_simp+
  show ?thesis
    using r addEdge_unregistered [of "\<lparr>adjList = [] :: (nat \<times> (nat \<times> int) list) list, Vertices = [1, 2]\<rparr>" 1 3 7]
      addEdge_unregistered [of "\<lparr>adjList = [] :: (nat \<times> (nat \<times> int) list) list, Vertices = [1, 2]\<rparr>" 3 1 7]
    by simp
qed

text \<open>
  Claim C7, as amended: in a graph whose registry holds fewer than \<open>2 ^ 31\<close> vertices, for
  vertices \<open>from\<close> and \<open>to\<close> of the registry, equal or not, and every weight \<open>w\<close>,
  \<^verbatim>\<open>addEdge(from, to, w)\<close> returns true, and \<^verbatim>\<open>getWeight(from, to)\<close> right after it returns
  true with the weight \<open>w\<close>.
\<close>

theorem addEdge_then_getWeight:
  assumes "from \<in> set (Vertices g)" and "to \<in> set (Vertices g)"
    and "length (Vertices g) < 2147483648"
  shows "fst (addEdge g from to w)
    \<and> getWeight (snd (addEdge g from to w)) from to w0 = Inr (True, w)"
proof -
  have "registered g from" using assms(3,1) by (rule in_Vertices_registered)
  moreover have "registered g to" using assms(3,2) by (rule in_Vertices_registered)
  ultimately show ?thesis by (rule getWeight_after_addEdge)
qed

theorem addEdge_then_getWeight_witness:
  "''X'' \<in> set (Vertices \<lparr>adjList = [] :: (string \<times> (string \<times> int) list) list, Vertices = [''X'', ''Y'']\<rparr>)
   \<and> length (Vertices \<lparr>adjList = [] :: (string \<times> (string \<times> int) list) list, Vertices = [''X'', ''Y'']\<rparr>) < 2147483648
   \<and> addEdge \<lparr>adjList = [] :: (string \<times> (string \<times> int) list) list, Vertices = [''X'', ''Y'']\<rparr> ''X'' ''X'' 1
       = (True, \<lparr>adjList = [(''X'', [(''X'', 1)])], Vertices = [''X'', ''Y'']\<rparr>)
   \<and> getWeight \<lparr>adjList = [(''X'', [(''X'', 1::int)])], Vertices = [''X'', ''Y'']\<rparr> ''X'' ''X'' 0
       = Inr (True, 1)"
proof -
  have e: "addEdge \<lparr>adjList = [] :: (string \<times> (string \<times> int) list) list, Vertices = [''X'', ''Y'']\<rparr> ''X'' ''X'' 1
       = (True, \<lparr>adjList = [(''X'', [(''X'', 1)])], Vertices = [''X'', ''Y'']\<rparr>)"
    by code_simp
  show ?thesis
    using addEdge_then_getWeight [of "''X''" "\<lparr>adjList = [] :: (string \<times> (string \<times> int) list) list, Vertices = [''X'', ''Y'']\<rparr>" "''X''" 1 0] e
    by simp
qed

text \<open>
  Claim C7 as stated fails where the count leaves the range of \<^verbatim>\<open>int\<close>: after
  \<open>2 ^ 31\<close> calls of \<^verbatim>\<open>addVertex\<close>, \<^verbatim>\<open>NumVertices()\<close> is \<open>- 2147483648\<close>, the lookup
  finds no vertex, and \<^verbatim>\<open>addEdge(0, 1, 5)\<close> returns false for the vertices 0 and 1 of the
  registry; \<^verbatim>\<open>getWeight(0, 1)\<close> then returns false.
\<close>

theorem addEdge_then_getWeight_counterexample:
  "run empty_graph (map AddVertex (map int [0..<2147483648]))
     = (\<lparr>adjList = [], Vertices = map int [0..<2147483648]\<rparr> :: (int, int) graph)
   \<and> (0::int) \<in> set (Vertices (\<lparr>adjList = [], Vertices = map int [0..<2147483648]\<rparr> :: (int, int) graph))
   \<and> (1::int) \<in> set (Vertices (\<lparr>adjList = [], Vertices = map int [0..<2147483648]\<rparr> :: (int, int) graph))
   \<and> NumVertices (\<lparr>adjList = [], Vertices = map int [0..<2147483648]\<rparr> :: (int, int) graph) = - 2147483648
   \<and> addEdge (\<lparr>adjList = [], Vertices = map int [0..<2147483648]\<rparr> :: (int, int) graph) 0 1 5
       = (False, \<lparr>adjList = [], Vertices = map int [0..<2147483648]\<rparr>)
   \<and> getWeight (snd (addEdge (\<lparr>adjList = [], Vertices = map int [0..<2147483648]\<rparr> :: (int, int) graph) 0 1 5)) 0 1 0
       = Inr (False, 0)"
proof -
  let ?g = "\<lparr>adjList = [], Vertices = map int [0..<2147483648]\<rparr> :: (int, int) graph"
  have n: "\<not> registered ?g 0" by (rule wide_registry_facts)
  then have a: "addEdge ?g 0 1 5 = (False, ?g)"
    by (simp add: addEdge_rejects)
  have c: "NumVertices ?g = - 2147483648"
    by (simp add: NumVertices_def wrap32_def)
  have "getWeight ?g 0 1 0 = Inr (False, 0)"
    using n by (simp add: getWeight_unregistered)
  with a c show ?thesis
    using run_AddVertex_upt [of 2147483648, where ?'w = int] wide_registry_facts(1,2) by simp
qed

text \<open>
  Claim C8: every state reached from the empty graph by calls of \<^verbatim>\<open>addVertex\<close> and
  \<^verbatim>\<open>addEdge\<close> has no duplicate in the registry, has every adjacency key and every
  destination of a record in the registry, and has at most one record per source and
  destination.
\<close>

theorem reachable_invariants:
  "no_duplicate_vertices (run empty_graph ops)
   \<and> edges_reference_vertices (run empty_graph ops)
   \<and> one_record_per_pair (run empty_graph ops)"
  using invariants_run [OF invariants_empty, of ops] by (simp add: invariants_def)

theorem reachable_invariants_witness:
  "run empty_graph [AddVertex ''A'', AddVertex ''B'', AddVertex ''A'', AddEdge ''A'' ''B'' (5::int),
       AddEdge ''A'' ''B'' 9, AddEdge ''B'' ''C'' 1, AddEdge ''A'' ''A'' 2, AddEdge ''B'' ''A'' 3]
     = \<lparr>adjList = [(''A'', [(''B'', 9), (''A'', 2)]), (''B'', [(''A'', 3)])], Vertices = [''A'', ''B'']\<rparr>
   \<and> no_duplicate_vertices
        \<lparr>adjList = [(''A'', [(''B'', 9::int), (''A'', 2)]), (''B'', [(''A'', 3)])], Vertices = [''A'', ''B'']\<rparr>
   \<and> edges_reference_vertices
        \<lparr>adjList = [(''A'', [(''B'', 9::int), (''A'', 2)]), (''B'', [(''A'', 3)])], Vertices = [''A'', ''B'']\<rparr>
   \<and> one_record_per_pair
        \<lparr>adjList = [(''A'', [(''B'', 9::int), (''A'', 2)]), (''B'', [(''A'', 3)])], Vertices = [''A'', ''B'']\<rparr>"
proof -
  have e: "run empty_graph [AddVertex ''A'', AddVertex ''B'', AddVertex ''A'', AddEdge ''A'' ''B'' (5::int),
       AddEdge ''A'' ''B'' 9, AddEdge ''B'' ''C'' 1, AddEdge ''A'' ''A'' 2, AddEdge ''B'' ''A'' 3]
     = \<lparr>adjList = [(''A'', [(''B'', 9), (''A'', 2)]), (''B'', [(''A'', 3)])], Vertices = [''A'', ''B'']\<rparr>"
    by code_simp
  show ?thesis
    using reachable_invariants [of "[AddVertex ''A'', AddVertex ''B'', AddVertex ''A'',
       AddEdge ''A'' ''B'' (5::int), AddEdge ''A'' ''B'' 9, AddEdge ''B'' ''C'' 1, AddEdge ''A'' ''A'' 2,
       AddEdge ''B'' ''A'' 3]"] e
    by simp
qed

text \<open>
  Claim C9: \<^verbatim>\<open>getVertices()\<close> returns the registry, in insertion order (a vertex that
  \<^verbatim>\<open>addVertex\<close> accepts goes to the end, \<^verbatim>\<open>addEdge\<close> leaves the order alone), as a vector
  object of its own, at an address other than that of the member \<^verbatim>\<open>Vertices\<close>: whatever
  the caller does to the returned vector, the graph state read from the store is the
  same, and the next \<^verbatim>\<open>getVertices()\<close> returns the registry as before. (A write to the
  member's own address does change the graph: lemma \<open>mutate_member\<close>.)
\<close>

theorem getVertices_copy:
  assumes "this_Vertices s < next_free s"
  shows "vectors (snd (call_getVertices s)) (fst (call_getVertices s)) = Vertices (G s)
    \<and> fst (call_getVertices s) \<noteq> this_Vertices s
    \<and> G (mutate (snd (call_getVertices s)) (fst (call_getVertices s)) f) = G s
    \<and> vectors (snd (call_getVertices (mutate (snd (call_getVertices s)) (fst (call_getVertices s)) f)))
         (fst (call_getVertices (mutate (snd (call_getVertices s)) (fst (call_getVertices s)) f)))
       = Vertices (G s)
    \<and> getVertices (snd (addVertex g v))
       = (if v \<in> set (getVertices g) then getVertices g else getVertices g @ [v])
    \<and> getVertices (snd (addEdge g from to w)) = getVertices g"
proof -
  let ?a = "fst (call_getVertices s)" and ?s' = "snd (call_getVertices s)"
  have fresh: "?a \<noteq> this_Vertices s" using assms by (rule call_getVertices_fresh)
  have same: "this_Vertices ?s' = this_Vertices s" by (simp add: call_getVertices_def)
  have 1: "vectors ?s' ?a = Vertices (G s)"
    by (simp add: call_getVertices_def getVertices_def)
  have "G (mutate ?s' ?a f) = G ?s'"
    using fresh same by (simp add: mutate_other)
  with call_getVertices_const [OF assms] have 3: "G (mutate ?s' ?a f) = G s" by simp
  have 4: "vectors (snd (call_getVertices (mutate ?s' ?a f))) (fst (call_getVertices (mutate ?s' ?a f)))
      = Vertices (G s)"
    using 3 by (simp add: call_getVertices_def [of "mutate ?s' ?a f"] getVertices_def)
  have 5: "getVertices (snd (addVertex g v))
       = (if v \<in> set (getVertices g) then getVertices g else getVertices g @ [v])"
    by (simp add: getVertices_def addVertex_def addVertex_scan_iff)
  have 6: "getVertices (snd (addEdge g from to w)) = getVertices g"
    by (simp add: getVertices_def addEdge_Vertices)
  from 1 fresh 3 4 5 6 show ?thesis by simp
qed

theorem getVertices_copy_witness:
  "this_Vertices \<lparr>vectors = (\<lambda>a. [])(0 := [''A'', ''B'']), next_free = 1,
       this_adjList = [(''A'', [(''B'', 5::int)])], this_Vertices = 0\<rparr>
     < next_free \<lparr>vectors = (\<lambda>a. [])(0 := [''A'', ''B'']), next_free = 1,
       this_adjList = [(''A'', [(''B'', 5::int)])], this_Vertices = 0\<rparr>
   \<and> fst (call_getVertices \<lparr>vectors = (\<lambda>a. [])(0 := [''A'', ''B'']), next_free = 1,
       this_adjList = [(''A'', [(''B'', 5::int)])], this_Vertices = 0\<rparr>) = 1
   \<and> vectors (snd (call_getVertices \<lparr>vectors = (\<lambda>a. [])(0 := [''A'', ''B'']), next_free = 1,
       this_adjList = [(''A'', [(''B'', 5::int)])], this_Vertices = 0\<rparr>)) 1 = [''A'', ''B'']
   \<and> vectors (mutate (snd (call_getVertices \<lparr>vectors = (\<lambda>a. [])(0 := [''A'', ''B'']), next_free = 1,
       this_adjList = [(''A'', [(''B'', 5::int)])], this_Vertices = 0\<rparr>)) 1 (\<lambda>xs. ''C'' # xs)) 1
       = [''C'', ''A'', ''B'']
   \<and> G (mutate (snd (call_getVertices \<lparr>vectors = (\<lambda>a. [])(0 := [''A'', ''B'']), next_free = 1,
       this_adjList = [(''A'', [(''B'', 5::int)])], this_Vertices = 0\<rparr>)) 1 (\<lambda>xs. ''C'' # xs))
       = \<lparr>adjList = [(''A'', [(''B'', 5)])], Vertices = [''A'', ''B'']\<rparr>"
  using getVertices_copy [of "\<lparr>vectors = (\<lambda>a. [])(0 := [''A'', ''B'']), next_free = 1,
       this_adjList = [(''A'', [(''B'', 5::int)])], this_Vertices = 0\<rparr>" "\<lambda>xs. ''C'' # xs"]
  by (simp add: call_getVertices_def mutate_def G_def getVertices_def)

text \<open>
  Claim C10: in every state reached from the empty graph no adjacency entry has an empty
  vector, and a vertex has an entry exactly when some \<^verbatim>\<open>addEdge\<close> call with that vertex
  as source has returned true.
\<close>

theorem adjacency_entries:
  "no_empty_entry (run empty_graph ops)
   \<and> (v \<in> fst ` set (adjList (run empty_graph ops))) = (v \<in> set (edge_sources empty_graph ops))"
proof -
  have "no_empty_entry (run empty_graph ops)"
    using invariants_run [OF invariants_empty, of ops] by (simp add: invariants_def)
  moreover have "fst ` set (adjList (run empty_graph ops)) = set (edge_sources empty_graph ops)"
    using run_keys [of empty_graph ops] by (simp add: empty_graph_def)
  ultimately show ?thesis by simp
qed

theorem adjacency_entries_witness:
  "run empty_graph [AddVertex (1::nat), AddVertex 2, AddEdge 1 2 (5::int), AddEdge 3 1 0]
     = \<lparr>adjList = [(1, [(2, 5)])], Vertices = [1, 2]\<rparr>
   \<and> edge_sources empty_graph [AddVertex (1::nat), AddVertex 2, AddEdge 1 2 (5::int), AddEdge 3 1 0] = [1]
   \<and> no_empty_entry \<lparr>adjList = [(1::nat, [(2, 5::int)])], Vertices = [1, 2]\<rparr>
   \<and> (1::nat) \<in> fst ` set (adjList \<lparr>adjList = [(1::nat, [(2, 5::int)])], Vertices = [1, 2]\<rparr>)
   \<and> (2::nat) \<notin> fst ` set (adjList \<lparr>adjList = [(1::nat, [(2, 5::int)])], Vertices = [1, 2]\<rparr>)"
proof -
  have e: "run empty_graph [AddVertex (1::nat), AddVertex 2, AddEdge 1 2 (5::int), AddEdge 3 1 0]
     = \<lparr>adjList = [(1, [(2, 5)])], Vertices = [1, 2]\<rparr>"
    "edge_sources empty_graph [AddVertex (1::nat), AddVertex 2, AddEdge 1 2 (5::int), AddEdge 3 1 0] = [1]"
    by code_simp+
  show ?thesis
    using adjacency_entries [of "[AddVertex (1::nat), AddVertex 2, AddEdge 1 2 (5::int), AddEdge 3 1 0]" 1] e
    by simp
qed

end
